theory Spec2Isabelle
  imports Main "HOL-Library.Word" "HOL-Library.AList"
begin

unbundle bit_operations_syntax

section \<open>Python values shared by both components\<close>

text \<open>
  The exceptions that the statements of \<^verbatim>\<open>confidence.py\<close> (and the numpy and
  xarray calls they make) can raise. \<open>SystemExit n\<close> is what \<^verbatim>\<open>sys.exit(n)\<close> raises.
  \<open>ConfigurationError\<close> is the error type named by the specification; it is listed so that
  the specification can be compared with the code, and no definition below produces it,
  because no statement of the source raises it.
\<close>

datatype exn = KeyError | ValueError | IndexError | SystemExit int | ConfigurationError

section \<open>Estimator registry and factory (\<^verbatim>\<open>AbstractConfidence.__new__\<close>, \<^verbatim>\<open>register_subclass\<close>)\<close>

text \<open>
  A class is \<open>AbstractConfidence\<close> itself or any other class, identified by its name.
  A configuration value is a Python object; only whether it is a \<^verbatim>\<open>str\<close> matters to
  the factory.
\<close>

datatype pyclass = AbstractConfidence | Subclass string

datatype pyval = PyStr string | PyInt int | PyBool bool | PyNone

text \<open>What \<^verbatim>\<open>__new__\<close> hands back: a new instance of some class, or \<^verbatim>\<open>None\<close>.\<close>

datatype pyobj = Instance pyclass | NoneObj

text \<open>
  The process-wide state the factory touches: the class attribute
  \<^verbatim>\<open>confidence_methods_avail\<close> (a dict from short name to class) and the records
  emitted through \<^verbatim>\<open>logging.error\<close>.
\<close>

record interp =
  confidence_methods_avail :: "string \<rightharpoonup> pyclass"
  logged :: "string list"

text \<open>
  \<^verbatim>\<open>logging.error('No confidence method named % supported', m)\<close>: the record's
  message is the format string applied to \<open>m\<close>. In the format string the characters
  \<^verbatim>\<open>% s\<close> (percent, space flag, conversion \<^verbatim>\<open>s\<close>) are one conversion, so the
  text that follows the method name is \<^verbatim>\<open>upported\<close>.
\<close>

definition no_method_message :: "string \<Rightarrow> string" where
  "no_method_message m = ''No confidence method named '' @ m @ ''upported''"

text \<open>
  \<^verbatim>\<open>__new__(cls, **cfg)\<close>, lines 43-59. \<^verbatim>\<open>cfg['confidence_method']\<close> is read
  before the \<^verbatim>\<open>try\<close>, so a missing key raises \<open>KeyError\<close> uncaught; the
  \<^verbatim>\<open>isinstance\<close> test has no \<^verbatim>\<open>else\<close>, so a non-string value falls off the end
  of the function, which returns \<^verbatim>\<open>None\<close>; the registry lookup is inside the
  \<^verbatim>\<open>try\<close>, and its \<open>KeyError\<close> is answered by logging and \<^verbatim>\<open>sys.exit(1)\<close>.
\<close>

definition AbstractConfidence_new ::
    "pyclass \<Rightarrow> (string \<rightharpoonup> pyval) \<Rightarrow> interp \<Rightarrow> (exn + pyobj) \<times> interp" where
  "AbstractConfidence_new cls cfg s =
     (if cls = AbstractConfidence then
        (case cfg ''confidence_method'' of
           None \<Rightarrow> (Inl KeyError, s)
         | Some (PyStr m) \<Rightarrow>
             (case confidence_methods_avail s m of
                Some sub \<Rightarrow> (Inr (Instance sub), s)
              | None \<Rightarrow>
                  (Inl (SystemExit 1), s\<lparr>logged := logged s @ [no_method_message m]\<rparr>))
         | Some _ \<Rightarrow> (Inr NoneObj, s))
      else (Inr (Instance cls), s))"

text \<open>
  \<^verbatim>\<open>register_subclass(short_name)(subclass)\<close>, lines 61-80: the decorator stores the
  class under the short name and returns the class.
\<close>

definition register_subclass :: "string \<Rightarrow> pyclass \<Rightarrow> interp \<Rightarrow> pyclass \<times> interp" where
  "register_subclass short_name subclass s =
     (subclass,
      s\<lparr>confidence_methods_avail := (confidence_methods_avail s)(short_name \<mapsto> subclass)\<rparr>)"

section \<open>numpy arrays and the object store\<close>

text \<open>
  A \<^verbatim>\<open>float32\<close> is its 32-bit pattern. The accumulator never computes with the
  values: it fills with \<^verbatim>\<open>np.nan\<close> and copies. \<open>np_nan\<close> is the pattern of
  \<^verbatim>\<open>np.float32(np.nan)\<close>; \<open>isnan\<close> is the IEEE test (exponent all ones, fraction
  not zero).
\<close>

type_synonym float32 = "32 word"

definition np_nan :: float32 where
  "np_nan = 0x7FC00000"

definition isnan :: "float32 \<Rightarrow> bool" where
  "isnan x = (x AND 0x7F800000 = 0x7F800000 \<and> x AND 0x007FFFFF \<noteq> 0)"

text \<open>
  An \<^verbatim>\<open>ndarray\<close> of dtype \<^verbatim>\<open>float32\<close>: its shape and the element at each index
  tuple. Only indices inside the shape are ever read by a statement about an array.
\<close>

record ndarray =
  shape :: "nat list"
  item :: "nat list \<Rightarrow> float32"

text \<open>
  An xarray variable names its dimensions and refers to its numpy buffer; two variables
  that hold the same reference share storage. A dataset has data variables and index
  coordinates (the labels along a dimension, kept as strings). A \<^verbatim>\<open>DataArray\<close> is a
  variable together with the coordinates along its dimensions.
\<close>

type_synonym addr = nat

record variable =
  dims :: "string list"
  data :: addr

record dataset =
  data_vars :: "(string \<times> variable) list"
  coords :: "(string \<times> string list) list"

record dataarray =
  da_var :: variable
  da_coords :: "(string \<times> string list) list"

text \<open>
  The store: numpy buffers and \<^verbatim>\<open>Dataset\<close> objects by reference. A new object takes
  the next unused reference, so every reference below \<open>next_array\<close> (\<open>next_dataset\<close>)
  belongs to an object that existed before.
\<close>

record heap =
  arrays :: "addr \<Rightarrow> ndarray"
  next_array :: addr
  datasets :: "addr \<Rightarrow> dataset"
  next_dataset :: addr

text \<open>A Python computation: it ends with a value or a raised exception, in a new store.\<close>

type_synonym 'a py = "heap \<Rightarrow> (exn + 'a) \<times> heap"

definition py_return :: "'a \<Rightarrow> 'a py" where
  "py_return x h = (Inr x, h)"

definition py_raise :: "exn \<Rightarrow> 'a py" where
  "py_raise e h = (Inl e, h)"

definition py_bind :: "'a py \<Rightarrow> ('a \<Rightarrow> 'b py) \<Rightarrow> 'b py" where
  "py_bind m f h = (case m h of (Inl e, h') \<Rightarrow> (Inl e, h') | (Inr x, h') \<Rightarrow> f x h')"

definition new_array :: "ndarray \<Rightarrow> addr py" where
  "new_array a h =
     (Inr (next_array h),
      h\<lparr>arrays := (arrays h)(next_array h := a), next_array := Suc (next_array h)\<rparr>)"

definition new_dataset :: "dataset \<Rightarrow> addr py" where
  "new_dataset s h =
     (Inr (next_dataset h),
      h\<lparr>datasets := (datasets h)(next_dataset h := s), next_dataset := Suc (next_dataset h)\<rparr>)"

subsection \<open>numpy operations used by the accumulator\<close>

text \<open>\<^verbatim>\<open>np.full(shape, value, dtype=np.float32)\<close>.\<close>

definition np_full :: "nat list \<Rightarrow> float32 \<Rightarrow> addr py" where
  "np_full shp v = new_array \<lparr>shape = shp, item = (\<lambda>idx. v)\<rparr>"

text \<open>
  Assignment to a slice broadcasts the right-hand side to the slice's shape: leading
  extents that the slice does not have must be 1, and every other extent must equal the
  slice's or be 1. An extent of 1 is read at position 0 for every target position.
\<close>

definition broadcastable :: "nat list \<Rightarrow> nat list \<Rightarrow> bool" where
  "broadcastable src tgt =
     (let extra = length src - length tgt;
          rest = drop extra src
      in list_all (\<lambda>n. n = 1) (take extra src)
         \<and> list_all2 (\<lambda>n m. n = m \<or> n = 1) rest (drop (length tgt - length rest) tgt))"

definition broadcast_item :: "ndarray \<Rightarrow> nat list \<Rightarrow> float32" where
  "broadcast_item a idx =
     (let extra = length (shape a) - length idx;
          rest = drop extra (shape a)
      in item a (replicate extra 0
                 @ map2 (\<lambda>n i. if n = 1 then 0 else i) rest (drop (length idx - length rest) idx)))"

text \<open>
  \<^verbatim>\<open>dst[:, :, :-1] = src\<close> on a three-dimensional \<open>dst\<close>: the slice is every position
  whose last index is below the last extent minus one.
\<close>

definition setitem_all_but_last :: "addr \<Rightarrow> addr \<Rightarrow> unit py" where
  "setitem_all_but_last dst src h =
     (let a = arrays h dst; b = arrays h src in
      case shape a of
        [nb_row, nb_col, n] \<Rightarrow>
          if broadcastable (shape b) [nb_row, nb_col, n - 1] then
            (Inr (),
             h\<lparr>arrays := (arrays h)(dst := a\<lparr>item :=
                  (\<lambda>idx. case idx of
                      [r, c, k] \<Rightarrow> if k < n - 1 then broadcast_item b [r, c, k] else item a idx
                    | _ \<Rightarrow> item a idx)\<rparr>)\<rparr>)
          else (Inl ValueError, h)
      | _ \<Rightarrow> (Inl IndexError, h))"

text \<open>
  \<^verbatim>\<open>dst[:, :, -1] = src\<close> on a three-dimensional \<open>dst\<close>: index \<open>-1\<close> is the last
  position of the last axis, which must exist.
\<close>

definition setitem_last :: "addr \<Rightarrow> addr \<Rightarrow> unit py" where
  "setitem_last dst src h =
     (let a = arrays h dst; b = arrays h src in
      case shape a of
        [nb_row, nb_col, n] \<Rightarrow>
          if n = 0 then (Inl IndexError, h)
          else if broadcastable (shape b) [nb_row, nb_col] then
            (Inr (),
             h\<lparr>arrays := (arrays h)(dst := a\<lparr>item :=
                  (\<lambda>idx. case idx of
                      [r, c, k] \<Rightarrow> if k = n - 1 then broadcast_item b [r, c] else item a idx
                    | _ \<Rightarrow> item a idx)\<rparr>)\<rparr>)
          else (Inl ValueError, h)
      | _ \<Rightarrow> (Inl IndexError, h))"

text \<open>
  \<^verbatim>\<open>src[:, :, np.newaxis].astype(np.float32)\<close>: two slices need at least two axes;
  the new axis of extent 1 comes third; \<^verbatim>\<open>astype\<close> copies into a new buffer.
\<close>

definition newaxis_astype :: "addr \<Rightarrow> addr py" where
  "newaxis_astype src h =
     (let b = arrays h src in
      if length (shape b) < 2 then (Inl IndexError, h)
      else new_array
             \<lparr>shape = take 2 (shape b) @ [1] @ drop 2 (shape b),
              item = (\<lambda>idx. item b (take 2 idx @ drop 3 idx))\<rparr> h)"

text \<open>\<^verbatim>\<open>np.append(np.copy(labels), name)\<close>.\<close>

definition np_append :: "string list \<Rightarrow> string \<Rightarrow> string list" where
  "np_append labels name = labels @ [name]"

text \<open>\<^verbatim>\<open>nb_row, nb_col, nb_indicator = x.shape\<close>: unpacking needs exactly three extents.\<close>

definition unpack_shape3 :: "addr \<Rightarrow> (nat \<times> nat \<times> nat) py" where
  "unpack_shape3 p h =
     (case shape (arrays h p) of
        [nb_row, nb_col, nb_indicator] \<Rightarrow> (Inr (nb_row, nb_col, nb_indicator), h)
      | _ \<Rightarrow> (Inl ValueError, h))"

subsection \<open>xarray operations used by the accumulator\<close>

text \<open>
  Every (dimension, extent) pair that a dataset's variables and coordinates give. xarray
  refuses a dataset in which one dimension has two extents.
\<close>

definition dim_sizes :: "heap \<Rightarrow> dataset \<Rightarrow> (string \<times> nat) list" where
  "dim_sizes h s =
     concat (map (\<lambda>(n, v). zip (dims v) (shape (arrays h (data v)))) (data_vars s))
     @ map (\<lambda>(d, labels). (d, length labels)) (coords s)"

definition consistent :: "(string \<times> nat) list \<Rightarrow> bool" where
  "consistent ps = list_all (\<lambda>(d, n). list_all (\<lambda>(d', n'). d' \<noteq> d \<or> n' = n) ps) ps"

text \<open>\<^verbatim>\<open>name in ds.data_vars\<close>.\<close>

definition in_data_vars :: "string \<Rightarrow> addr \<Rightarrow> bool py" where
  "in_data_vars name ds h = (Inr (map_of (data_vars (datasets h ds)) name \<noteq> None), h)"

text \<open>
  \<^verbatim>\<open>ds[name]\<close> for a data variable: the variable with the dataset's coordinates along
  the variable's dimensions.
\<close>

definition ds_getitem :: "addr \<Rightarrow> string \<Rightarrow> dataarray py" where
  "ds_getitem ds name h =
     (let s = datasets h ds in
      case map_of (data_vars s) name of
        None \<Rightarrow> (Inl KeyError, h)
      | Some v \<Rightarrow>
          (Inr \<lparr>da_var = v, da_coords = filter (\<lambda>(c, labels). c \<in> set (dims v)) (coords s)\<rparr>, h))"

text \<open>\<^verbatim>\<open>ds.coords[name]\<close>.\<close>

definition coords_getitem :: "addr \<Rightarrow> string \<Rightarrow> string list py" where
  "coords_getitem ds name h =
     (case map_of (coords (datasets h ds)) name of
        None \<Rightarrow> (Inl KeyError, h)
      | Some labels \<Rightarrow> (Inr labels, h))"

text \<open>
  \<^verbatim>\<open>ds.drop_dims(d)\<close>: a new dataset without the variables and the coordinate that
  use dimension \<open>d\<close>; \<open>d\<close> must be a dimension of the dataset.
\<close>

definition drop_dims :: "addr \<Rightarrow> string \<Rightarrow> addr py" where
  "drop_dims ds d h =
     (let s = datasets h ds in
      if d \<in> fst ` set (dim_sizes h s) then
        new_dataset
          \<lparr>data_vars = filter (\<lambda>(n, v). d \<notin> set (dims v)) (data_vars s),
           coords = filter (\<lambda>(c, labels). c \<noteq> d) (coords s)\<rparr> h
      else (Inl ValueError, h))"

text \<open>
  \<^verbatim>\<open>ds.assign_coords(d=labels)\<close>: a new dataset (a shallow copy, the buffers are
  shared) whose coordinate \<open>d\<close> is \<open>labels\<close>; the extents must still agree.
\<close>

definition assign_coords :: "addr \<Rightarrow> string \<Rightarrow> string list \<Rightarrow> addr py" where
  "assign_coords ds d labels h =
     (let s = datasets h ds;
          s' = s\<lparr>coords := AList.update d labels (coords s)\<rparr>
      in if consistent (dim_sizes h s') then new_dataset s' h else (Inl ValueError, h))"

text \<open>
  \<^verbatim>\<open>xr.DataArray(data=p, dims=names)\<close>, without coordinates: the number of names
  must be the number of axes.
\<close>

definition DataArray :: "addr \<Rightarrow> string list \<Rightarrow> dataarray py" where
  "DataArray p names h =
     (if length (shape (arrays h p)) = length names
      then (Inr \<lparr>da_var = \<lparr>dims = names, data = p\<rparr>, da_coords = []\<rparr>, h)
      else (Inl ValueError, h))"

text \<open>
  Assigning a \<^verbatim>\<open>DataArray\<close> into a dataset first aligns it with the dataset's index
  coordinates. Along a dimension where both have labels and the labels differ, the array
  is reindexed to the dataset's labels: a new buffer, with \<^verbatim>\<open>NaN\<close> where a label of
  the dataset is not among the array's, and an error when the array's labels are not
  unique. Where nothing has to be reindexed the variable is used as it is, buffer included.
\<close>

fun index_of :: "'a \<Rightarrow> 'a list \<Rightarrow> nat option" where
  "index_of x [] = None"
| "index_of x (y # ys) = (if x = y then Some 0 else map_option Suc (index_of x ys))"

definition axis_plan ::
    "(string \<times> string list) list \<Rightarrow> (string \<times> string list) list \<Rightarrow> string
      \<Rightarrow> (string list \<times> string list) option" where
  "axis_plan target source d =
     (case map_of target d of
        None \<Rightarrow> None
      | Some tls \<Rightarrow>
          (case map_of source d of
             None \<Rightarrow> None
           | Some sls \<Rightarrow> if tls = sls then None else Some (tls, sls)))"

fun reindexed_shape :: "(string list \<times> string list) option list \<Rightarrow> nat list \<Rightarrow> nat list" where
  "reindexed_shape (Some (tls, sls) # ps) (n # ns) = length tls # reindexed_shape ps ns"
| "reindexed_shape (None # ps) (n # ns) = n # reindexed_shape ps ns"
| "reindexed_shape ps ns = ns"

fun source_index :: "(string list \<times> string list) option list \<Rightarrow> nat list \<Rightarrow> nat list option" where
  "source_index (Some (tls, sls) # ps) (i # js) =
     (if i < length tls then
        (case index_of (tls ! i) sls of
           None \<Rightarrow> None
         | Some j \<Rightarrow> map_option ((#) j) (source_index ps js))
      else None)"
| "source_index (None # ps) (i # js) = map_option ((#) i) (source_index ps js)"
| "source_index ps js = Some js"

definition align :: "(string \<times> string list) list \<Rightarrow> dataarray \<Rightarrow> variable py" where
  "align target da h =
     (let v = da_var da;
          plan = map (axis_plan target (da_coords da)) (dims v)
      in if list_all (\<lambda>p. p = None) plan then (Inr v, h)
         else if list_ex (\<lambda>p. case p of None \<Rightarrow> False | Some (tls, sls) \<Rightarrow> \<not> distinct sls) plan
         then (Inl ValueError, h)
         else py_bind
                (new_array
                   \<lparr>shape = reindexed_shape plan (shape (arrays h (data v))),
                    item = (\<lambda>idx. case source_index plan idx of
                                     None \<Rightarrow> np_nan
                                   | Some j \<Rightarrow> item (arrays h (data v)) j)\<rparr>)
                (\<lambda>p. py_return \<lparr>dims = dims v, data = p\<rparr>) h)"

text \<open>
  \<^verbatim>\<open>ds[name] = da\<close>: the dataset object itself is updated. The aligned variable is
  stored under \<open>name\<close>, coordinates of \<open>da\<close> that the dataset lacks are added, and
  the extents of the result must agree; on an error the dataset is left as it was.
\<close>

definition ds_setitem :: "addr \<Rightarrow> string \<Rightarrow> dataarray \<Rightarrow> unit py" where
  "ds_setitem ds name da h =
     (let s = datasets h ds in
      py_bind (align (coords s) da)
        (\<lambda>v h1.
           let s' = s\<lparr>data_vars := AList.update name v (data_vars s),
                      coords := coords s
                        @ filter (\<lambda>(c, labels). map_of (coords s) c = None) (da_coords da)\<rparr>
           in if consistent (dim_sizes h1 s')
              then (Inr (), h1\<lparr>datasets := (datasets h1)(ds := s')\<rparr>)
              else (Inl ValueError, h1)) h)"

section \<open>Indicator accumulator (\<^verbatim>\<open>AbstractConfidence.allocate_confidence_map\<close>)\<close>

text \<open>
  Lines 129-144 (on \<^verbatim>\<open>cv\<close>) and lines 153-168 (on \<^verbatim>\<open>disp\<close>) are the same
  statements on two datasets: build the grown array, copy the old slices, write the new
  one, extend the labels, and rebuild the dataset around them. The result is the
  reference that the local name is bound to afterwards.
\<close>

definition grow_confidence_measure :: "string \<Rightarrow> addr \<Rightarrow> addr \<Rightarrow> addr py" where
  "grow_confidence_measure name_confidence_measure confidence_map ds =
     py_bind (ds_getitem ds ''confidence_measure'') (\<lambda>old.
     py_bind (unpack_shape3 (data (da_var old))) (\<lambda>(nb_row, nb_col, nb_indicator).
     py_bind (np_full [nb_row, nb_col, nb_indicator + 1] np_nan) (\<lambda>conf_measure.
     py_bind (setitem_all_but_last conf_measure (data (da_var old))) (\<lambda>_.
     py_bind (setitem_last conf_measure confidence_map) (\<lambda>_.
     py_bind (coords_getitem ds ''indicator'') (\<lambda>indicator.
     py_bind (drop_dims ds ''indicator'') (\<lambda>ds1.
     py_bind (assign_coords ds1 ''indicator'' (np_append indicator name_confidence_measure))
       (\<lambda>ds2.
     py_bind (DataArray conf_measure [''row'', ''col'', ''indicator'']) (\<lambda>new.
     py_bind (ds_setitem ds2 ''confidence_measure'' new) (\<lambda>_.
     py_return ds2))))))))))"

text \<open>Lines 146-149: the first indicator of a cost volume.\<close>

definition first_confidence_measure :: "string \<Rightarrow> addr \<Rightarrow> addr \<Rightarrow> addr py" where
  "first_confidence_measure name_confidence_measure confidence_map cv =
     py_bind (assign_coords cv ''indicator'' [name_confidence_measure]) (\<lambda>cv1.
     py_bind (newaxis_astype confidence_map) (\<lambda>a.
     py_bind (DataArray a [''row'', ''col'', ''indicator'']) (\<lambda>new.
     py_bind (ds_setitem cv1 ''confidence_measure'' new) (\<lambda>_.
     py_return cv1))))"

text \<open>
  Lines 127-149, the statement on the cost volume: grow its confidence measure when it has
  one, allocate the first one otherwise. The result is what \<^verbatim>\<open>cv\<close> is bound to
  afterwards.
\<close>

definition update_cost_volume :: "string \<Rightarrow> addr \<Rightarrow> addr \<Rightarrow> addr py" where
  "update_cost_volume name_confidence_measure confidence_map cv =
     py_bind (in_data_vars ''confidence_measure'' cv) (\<lambda>cv_has.
     if cv_has
     then grow_confidence_measure name_confidence_measure confidence_map cv
     else first_confidence_measure name_confidence_measure confidence_map cv)"

text \<open>
  Lines 151-170, the statement on the disparity map, which sees the updated \<^verbatim>\<open>cv\<close>:
  nothing for \<^verbatim>\<open>None\<close>; the same growth when \<^verbatim>\<open>disp\<close> has a confidence measure;
  otherwise \<^verbatim>\<open>disp['confidence_measure'] = cv['confidence_measure']\<close>, which updates
  the caller's dataset object. The result is what \<^verbatim>\<open>disp\<close> is bound to afterwards.
\<close>

definition update_disparity_map ::
    "string \<Rightarrow> addr \<Rightarrow> addr option \<Rightarrow> addr \<Rightarrow> addr option py" where
  "update_disparity_map name_confidence_measure confidence_map disp cv =
     (case disp of
        None \<Rightarrow> py_return None
      | Some d \<Rightarrow>
          py_bind (in_data_vars ''confidence_measure'' d) (\<lambda>disp_has.
          if disp_has
          then py_bind (grow_confidence_measure name_confidence_measure confidence_map d)
                 (\<lambda>d'. py_return (Some d'))
          else py_bind (ds_getitem cv ''confidence_measure'') (\<lambda>layer.
               py_bind (ds_setitem d ''confidence_measure'' layer) (\<lambda>_.
               py_return (Some d)))))"

text \<open>
  \<^verbatim>\<open>allocate_confidence_map(name_confidence_measure, confidence_map, disp, cv)\<close>,
  lines 127-172: the two statements in order, then \<^verbatim>\<open>return disp, cv\<close>.
\<close>

definition allocate_confidence_map ::
    "string \<Rightarrow> addr \<Rightarrow> addr option \<Rightarrow> addr \<Rightarrow> (addr option \<times> addr) py" where
  "allocate_confidence_map name_confidence_measure confidence_map disp cv =
     py_bind (update_cost_volume name_confidence_measure confidence_map cv) (\<lambda>cv'.
     py_bind (update_disparity_map name_confidence_measure confidence_map disp cv') (\<lambda>disp'.
     py_return (disp', cv')))"

section \<open>Vocabulary of the statements\<close>

text \<open>
  \<open>frame A D X h h'\<close>: from store \<open>h\<close> to store \<open>h'\<close> no reference was given up, every
  buffer below \<open>A\<close> is the same, and every dataset object below \<open>D\<close>, those in \<open>X\<close>
  apart, is the same. With \<open>A\<close> and \<open>D\<close> the next references of \<open>h\<close> and \<open>X\<close> empty,
  nothing that existed in \<open>h\<close> was changed.
\<close>

definition frame :: "addr \<Rightarrow> addr \<Rightarrow> addr set \<Rightarrow> heap \<Rightarrow> heap \<Rightarrow> bool" where
  "frame A D X h h' =
     (next_array h \<le> next_array h' \<and> next_dataset h \<le> next_dataset h'
      \<and> (\<forall>p<A. arrays h' p = arrays h p)
      \<and> (\<forall>q<D. q \<notin> X \<longrightarrow> datasets h' q = datasets h q))"

text \<open>
  \<open>safe A D X m Q\<close>: started in a store whose next references are at least \<open>A\<close> and
  \<open>D\<close>, the computation \<open>m\<close> changes below them at most the datasets in \<open>X\<close>, changes
  nothing at all below them when it raises, and returns only values that satisfy \<open>Q\<close>.
\<close>

definition safe :: "addr \<Rightarrow> addr \<Rightarrow> addr set \<Rightarrow> 'a py \<Rightarrow> ('a \<Rightarrow> bool) \<Rightarrow> bool" where
  "safe A D X m Q =
     (\<forall>h r h'. A \<le> next_array h \<longrightarrow> D \<le> next_dataset h \<longrightarrow> m h = (r, h') \<longrightarrow>
        frame A D X h h'
        \<and> (\<forall>x. r = Inr x \<longrightarrow> Q x)
        \<and> (\<forall>e. r = Inl e \<longrightarrow> frame A D {} h h'))"

text \<open>
  What xarray guarantees of a dataset that a caller can hand in, read in store \<open>h\<close>: the
  names of its variables and of its coordinates are keys of a dict, every variable's
  buffer exists and has one axis per dimension name, and no dimension has two extents.
\<close>

definition valid_dataset :: "heap \<Rightarrow> dataset \<Rightarrow> bool" where
  "valid_dataset h s =
     (distinct (map fst (data_vars s)) \<and> distinct (map fst (coords s))
      \<and> list_all (\<lambda>(n, v). data v < next_array h
                    \<and> length (shape (arrays h (data v))) = length (dims v)) (data_vars s)
      \<and> consistent (dim_sizes h s))"

text \<open>The confidence measure of the dataset at a reference, and its indicator labels.\<close>

definition confidence_measure :: "heap \<Rightarrow> addr \<Rightarrow> variable option" where
  "confidence_measure h ds = map_of (data_vars (datasets h ds)) ''confidence_measure''"

definition indicator :: "heap \<Rightarrow> addr \<Rightarrow> string list option" where
  "indicator h ds = map_of (coords (datasets h ds)) ''indicator''"

text \<open>
  \<open>carries h ds name\<close>: the dataset has a confidence measure over
  \<^verbatim>\<open>(row, col, indicator)\<close> with as many slices as it has indicator labels, and the
  last label is \<open>name\<close>.
\<close>

definition carries :: "heap \<Rightarrow> addr \<Rightarrow> string \<Rightarrow> bool" where
  "carries h ds name =
     (case (confidence_measure h ds, indicator h ds) of
        (Some v, Some labels) \<Rightarrow>
          dims v = [''row'', ''col'', ''indicator'']
          \<and> (case shape (arrays h (data v)) of
                [nb_row, nb_col, nb_indicator] \<Rightarrow> length labels = nb_indicator
              | _ \<Rightarrow> False)
          \<and> labels \<noteq> [] \<and> last labels = name
      | _ \<Rightarrow> False)"

section \<open>Properties of the registry and the factory\<close>

text \<open>
  C8. Registering two implementations under one short name never fails; the second
  registration replaces the first in the registry, and constructing
  \<open>AbstractConfidence\<close> with that name afterwards yields an instance of the class
  registered last, leaving the interpreter state as the registrations left it.
\<close>

theorem later_registration_wins:
  "let s1 = snd (register_subclass n c1 s);
       s2 = snd (register_subclass n c2 s1)
   in confidence_methods_avail s2 n = Some c2
      \<and> fst (register_subclass n c2 s1) = c2
      \<and> AbstractConfidence_new AbstractConfidence (cfg(''confidence_method'' \<mapsto> PyStr n)) s2
          = (Inr (Instance c2), s2)"
  by (simp add: Let_def register_subclass_def AbstractConfidence_new_def)

text \<open>
  C3 (as amended). When \<open>confidence_method\<close> is a string that names no registered
  strategy, constructing \<open>AbstractConfidence\<close> logs one error record naming the requested
  method and then leaves through \<^verbatim>\<open>sys.exit(1)\<close>, that is, it raises \<open>SystemExit 1\<close>;
  the registry is the one the call started with.
\<close>

theorem unknown_method_exits:
  assumes "cfg ''confidence_method'' = Some (PyStr m)"
    and "confidence_methods_avail s m = None"
  shows "AbstractConfidence_new AbstractConfidence cfg s
           = (Inl (SystemExit 1), s\<lparr>logged := logged s @ [no_method_message m]\<rparr>)
         \<and> confidence_methods_avail (snd (AbstractConfidence_new AbstractConfidence cfg s))
           = confidence_methods_avail s"
  using assms by (simp add: AbstractConfidence_new_def)

theorem unknown_method_exits_witness:
  "map_of [(''confidence_method'', PyStr ''nonexistent'')] ''confidence_method''
     = Some (PyStr ''nonexistent'')
   \<and> confidence_methods_avail
        \<lparr>confidence_methods_avail = map_of [(''ambiguity'', Subclass ''Ambiguity'')],
         logged = []\<rparr> ''nonexistent'' = None
   \<and> AbstractConfidence_new AbstractConfidence
        (map_of [(''confidence_method'', PyStr ''nonexistent'')])
        \<lparr>confidence_methods_avail = map_of [(''ambiguity'', Subclass ''Ambiguity'')],
         logged = []\<rparr>
     = (Inl (SystemExit 1),
        \<lparr>confidence_methods_avail = map_of [(''ambiguity'', Subclass ''Ambiguity'')],
         logged = [''No confidence method named nonexistentupported'']\<rparr>)"
  using unknown_method_exits
    [of "map_of [(''confidence_method'', PyStr ''nonexistent'')]" "''nonexistent''"
        "\<lparr>confidence_methods_avail = map_of [(''ambiguity'', Subclass ''Ambiguity'')],
          logged = []\<rparr>"]
  by (simp add: no_method_message_def)

text \<open>
  C3 as the specification states it fails: with \<open>confidence_method = "nonexistent"\<close> and
  a registry that holds only \<open>"ambiguity"\<close>, the construction ends in \<open>SystemExit 1\<close>,
  which is not \<open>ConfigurationError\<close>.
\<close>

theorem unknown_method_counterexample:
  "fst (AbstractConfidence_new AbstractConfidence
          (map_of [(''confidence_method'', PyStr ''nonexistent'')])
          \<lparr>confidence_methods_avail = map_of [(''ambiguity'', Subclass ''Ambiguity'')],
           logged = []\<rparr>)
     = Inl (SystemExit 1)
   \<and> fst (AbstractConfidence_new AbstractConfidence
          (map_of [(''confidence_method'', PyStr ''nonexistent'')])
          \<lparr>confidence_methods_avail = map_of [(''ambiguity'', Subclass ''Ambiguity'')],
           logged = []\<rparr>)
     \<noteq> Inl ConfigurationError"
  by (simp add: AbstractConfidence_new_def)

text \<open>
  C9 (as amended). When the configuration has no \<open>confidence_method\<close> key, constructing
  \<open>AbstractConfidence\<close> raises the \<open>KeyError\<close> of the dictionary lookup: no object is
  returned, nothing is logged and the registry is untouched.
\<close>

theorem missing_method_key_raises_KeyError:
  assumes "cfg ''confidence_method'' = None"
  shows "AbstractConfidence_new AbstractConfidence cfg s = (Inl KeyError, s)"
  using assms by (simp add: AbstractConfidence_new_def)

theorem missing_method_key_raises_KeyError_witness:
  "map_of [(''other_option'', PyInt 3)] ''confidence_method'' = None
   \<and> AbstractConfidence_new AbstractConfidence (map_of [(''other_option'', PyInt 3)])
        \<lparr>confidence_methods_avail = map_of [(''ambiguity'', Subclass ''Ambiguity'')],
         logged = []\<rparr>
     = (Inl KeyError,
        \<lparr>confidence_methods_avail = map_of [(''ambiguity'', Subclass ''Ambiguity'')],
         logged = []\<rparr>)"
  using missing_method_key_raises_KeyError
    [of "map_of [(''other_option'', PyInt 3)]"
        "\<lparr>confidence_methods_avail = map_of [(''ambiguity'', Subclass ''Ambiguity'')],
          logged = []\<rparr>"]
  by simp

text \<open>
  C9 as the specification states it fails on both of its cases: an empty configuration
  ends in \<open>KeyError\<close>, and the non-string value \<open>3\<close> ends in no error at all, the call
  returning \<^verbatim>\<open>None\<close>. Neither is \<open>ConfigurationError\<close>.
\<close>

theorem missing_or_non_string_counterexample:
  "fst (AbstractConfidence_new AbstractConfidence (map_of [])
          \<lparr>confidence_methods_avail = map_of [(''ambiguity'', Subclass ''Ambiguity'')],
           logged = []\<rparr>)
     = Inl KeyError
   \<and> fst (AbstractConfidence_new AbstractConfidence
          (map_of [(''confidence_method'', PyInt 3)])
          \<lparr>confidence_methods_avail = map_of [(''ambiguity'', Subclass ''Ambiguity'')],
           logged = []\<rparr>)
     = Inr NoneObj"
  by (simp add: AbstractConfidence_new_def)

section \<open>Framing: what a computation leaves untouched\<close>

lemma safe_pure:
  assumes "\<And>h. snd (m h) = h" and "\<And>h x. fst (m h) = Inr x \<Longrightarrow> Q x"
  shows "safe A D X m Q"
  unfolding safe_def frame_def
proof (intro allI impI)
  fix h r h'
  assume "m h = (r, h')"
  then have "h' = h" and "fst (m h) = r"
    using assms(1) [of h] by simp_all
  then show "(next_array h \<le> next_array h' \<and> next_dataset h \<le> next_dataset h'
      \<and> (\<forall>p<A. arrays h' p = arrays h p)
      \<and> (\<forall>q<D. q \<notin> X \<longrightarrow> datasets h' q = datasets h q))
    \<and> (\<forall>x. r = Inr x \<longrightarrow> Q x)
    \<and> (\<forall>e. r = Inl e \<longrightarrow> next_array h \<le> next_array h' \<and> next_dataset h \<le> next_dataset h'
      \<and> (\<forall>p<A. arrays h' p = arrays h p)
      \<and> (\<forall>q<D. q \<notin> {} \<longrightarrow> datasets h' q = datasets h q))"
    using assms(2) [of h] by simp
qed

lemma safe_return: "Q x \<Longrightarrow> safe A D X (py_return x) Q"
  by (rule safe_pure) (simp_all add: py_return_def)

lemma safe_weaken: "safe A D X m Q \<Longrightarrow> (\<And>x. Q x \<Longrightarrow> Q' x) \<Longrightarrow> safe A D X m Q'"
  unfolding safe_def by blast

lemma safe_bind:
  assumes m: "safe A D {} m Q" and f: "\<And>x. Q x \<Longrightarrow> safe A D X (f x) Q'"
  shows "safe A D X (py_bind m f) Q'"
  unfolding safe_def
proof (intro allI impI)
  fix h r h'
  assume A: "A \<le> next_array h" and D: "D \<le> next_dataset h"
    and run: "py_bind m f h = (r, h')"
  obtain r1 h1 where m1: "m h = (r1, h1)" by (cases "m h")
  from m A D m1 have fr1: "frame A D {} h h1" and q1: "\<forall>x. r1 = Inr x \<longrightarrow> Q x"
    unfolding safe_def by blast+
  show "frame A D X h h' \<and> (\<forall>x. r = Inr x \<longrightarrow> Q' x) \<and> (\<forall>e. r = Inl e \<longrightarrow> frame A D {} h h')"
  proof (cases r1)
    case (Inl e)
    with run m1 have "r = Inl e" "h' = h1" by (simp_all add: py_bind_def)
    with fr1 show ?thesis by (simp add: frame_def)
  next
    case (Inr x)
    with run m1 have fx: "f x h1 = (r, h')" by (simp add: py_bind_def)
    from Inr q1 have "Q x" by simp
    from f [OF this] have sf: "safe A D X (f x) Q'" .
    from fr1 A D have "A \<le> next_array h1" "D \<le> next_dataset h1"
      by (simp_all add: frame_def)
    with sf fx have "frame A D X h1 h'" "\<forall>y. r = Inr y \<longrightarrow> Q' y"
      "\<forall>e. r = Inl e \<longrightarrow> frame A D {} h1 h'"
      unfolding safe_def by blast+
    with fr1 show ?thesis by (simp add: frame_def)
  qed
qed

lemma safe_bind_return:
  assumes m: "safe A D X m Q" and g: "\<And>x. Q x \<Longrightarrow> Q' (g x)"
  shows "safe A D X (py_bind m (\<lambda>x. py_return (g x))) Q'"
  unfolding safe_def
proof (intro allI impI)
  fix h r h'
  assume A: "A \<le> next_array h" and D: "D \<le> next_dataset h"
    and run: "py_bind m (\<lambda>x. py_return (g x)) h = (r, h')"
  obtain r1 h1 where m1: "m h = (r1, h1)" by (cases "m h")
  from m A D m1 have fr1: "frame A D X h h1" and q1: "\<forall>x. r1 = Inr x \<longrightarrow> Q x"
    and e1: "\<forall>e. r1 = Inl e \<longrightarrow> frame A D {} h h1"
    unfolding safe_def by blast+
  show "frame A D X h h' \<and> (\<forall>x. r = Inr x \<longrightarrow> Q' x) \<and> (\<forall>e. r = Inl e \<longrightarrow> frame A D {} h h')"
  proof (cases r1)
    case (Inl e)
    with run m1 have "r = Inl e" "h' = h1" by (simp_all add: py_bind_def)
    with fr1 e1 Inl show ?thesis by simp
  next
    case (Inr x)
    with run m1 have "r = Inr (g x)" "h' = h1" by (simp_all add: py_bind_def py_return_def)
    with fr1 q1 Inr g show ?thesis by simp
  qed
qed

lemma safe_new_array: "safe A D X (new_array a) (\<lambda>p. A \<le> p)"
  by (auto simp: safe_def frame_def new_array_def)

lemma safe_new_dataset: "safe A D X (new_dataset s) (\<lambda>q. D \<le> q)"
  by (auto simp: safe_def frame_def new_dataset_def)

lemma safe_np_full: "safe A D X (np_full shp v) (\<lambda>p. A \<le> p)"
  unfolding np_full_def by (rule safe_new_array)

lemma safe_in_data_vars: "safe A D X (in_data_vars n ds) (\<lambda>b. True)"
  by (rule safe_pure) (simp_all add: in_data_vars_def)

lemma safe_ds_getitem: "safe A D X (ds_getitem ds n) (\<lambda>da. True)"
  by (rule safe_pure) (simp_all add: ds_getitem_def Let_def split: option.splits)

lemma safe_coords_getitem: "safe A D X (coords_getitem ds n) (\<lambda>da. True)"
  by (rule safe_pure) (simp_all add: coords_getitem_def split: option.splits)

lemma safe_unpack_shape3: "safe A D X (unpack_shape3 p) (\<lambda>x. True)"
  by (rule safe_pure) (simp_all add: unpack_shape3_def split: list.splits)

lemma safe_DataArray: "safe A D X (DataArray p names) (\<lambda>da. data (da_var da) = p \<and> da_coords da = [])"
  by (rule safe_pure) (auto simp add: DataArray_def split: if_splits)

lemma safe_setitem_all_but_last:
  "A \<le> dst \<Longrightarrow> safe A D X (setitem_all_but_last dst src) (\<lambda>u. True)"
  by (auto simp: safe_def frame_def setitem_all_but_last_def Let_def split: list.splits if_splits)

lemma safe_setitem_last:
  "A \<le> dst \<Longrightarrow> safe A D X (setitem_last dst src) (\<lambda>u. True)"
  by (auto simp: safe_def frame_def setitem_last_def Let_def split: list.splits if_splits)

lemma safe_newaxis_astype: "safe A D X (newaxis_astype src) (\<lambda>p. A \<le> p)"
  by (auto simp: safe_def frame_def newaxis_astype_def new_array_def Let_def split: if_splits)

lemma safe_drop_dims: "safe A D X (drop_dims ds d) (\<lambda>q. D \<le> q)"
  by (auto simp: safe_def frame_def drop_dims_def new_dataset_def Let_def split: if_splits)

lemma safe_assign_coords: "safe A D X (assign_coords ds d labels) (\<lambda>q. D \<le> q)"
  by (auto simp: safe_def frame_def assign_coords_def new_dataset_def Let_def split: if_splits)

lemma ds_setitem_cases:
  assumes "ds_setitem ds n da h = (r, h')"
  obtains (align_raises) e where "align (coords (datasets h ds)) da h = (Inl e, h')" "r = Inl e"
  | (inconsistent) v where "align (coords (datasets h ds)) da h = (Inr v, h')" "r = Inl ValueError"
  | (stored) v h1 where "align (coords (datasets h ds)) da h = (Inr v, h1)" "r = Inr ()"
      "consistent (dim_sizes h1 ((datasets h ds)
         \<lparr>data_vars := AList.update n v (data_vars (datasets h ds)),
          coords := coords (datasets h ds)
            @ filter (\<lambda>(c, labels). map_of (coords (datasets h ds)) c = None) (da_coords da)\<rparr>))"
      "h' = h1\<lparr>datasets := (datasets h1)(ds := (datasets h ds)
         \<lparr>data_vars := AList.update n v (data_vars (datasets h ds)),
          coords := coords (datasets h ds)
            @ filter (\<lambda>(c, labels). map_of (coords (datasets h ds)) c = None) (da_coords da)\<rparr>)\<rparr>"
proof -
  obtain r1 h1 where al: "align (coords (datasets h ds)) da h = (r1, h1)"
    by (cases "align (coords (datasets h ds)) da h")
  show thesis
  proof (cases r1)
    case (Inl e)
    with assms al align_raises show ?thesis
      by (simp add: ds_setitem_def py_bind_def Let_def)
  next
    case (Inr v)
    with assms al inconsistent stored show ?thesis
      by (simp add: ds_setitem_def py_bind_def Let_def split: if_splits)
  qed
qed

lemma frame_align:
  "align target da h = (r, h1) \<Longrightarrow> frame (next_array h) (next_dataset h) {} h h1"
  by (auto simp: frame_def align_def new_array_def py_bind_def py_return_def Let_def
      split: if_splits)

lemma frame_mono: "frame A D {} h h' \<Longrightarrow> A' \<le> A \<Longrightarrow> D' \<le> D \<Longrightarrow> frame A' D' X h h'"
  by (auto simp: frame_def)

lemma safe_ds_setitem_fresh:
  assumes "D \<le> ds"
  shows "safe A D X (ds_setitem ds n da) (\<lambda>u. True)"
  unfolding safe_def
proof (intro allI impI)
  fix h r h'
  assume A: "A \<le> next_array h" and D: "D \<le> next_dataset h"
    and run: "ds_setitem ds n da h = (r, h')"
  from run have "frame A D {} h h'"
  proof (cases rule: ds_setitem_cases)
    case (align_raises e)
    from frame_mono [where X="{}", OF frame_align [OF align_raises(1)] A D] show ?thesis .
  next
    case (inconsistent v)
    from frame_mono [where X="{}", OF frame_align [OF inconsistent(1)] A D] show ?thesis .
  next
    case (stored v h1)
    from frame_mono [where X="{}", OF frame_align [OF stored(1)] A D] have "frame A D {} h h1" .
    with stored(4) assms show ?thesis by (simp add: frame_def)
  qed
  then show "frame A D X h h' \<and> (\<forall>x. r = Inr x \<longrightarrow> True) \<and> (\<forall>e. r = Inl e \<longrightarrow> frame A D {} h h')"
    by (simp add: frame_def)
qed

lemma safe_ds_setitem: "safe A D {ds} (ds_setitem ds n da) (\<lambda>u. True)"
  unfolding safe_def
proof (intro allI impI)
  fix h r h'
  assume A: "A \<le> next_array h" and D: "D \<le> next_dataset h"
    and run: "ds_setitem ds n da h = (r, h')"
  from run show "frame A D {ds} h h' \<and> (\<forall>x. r = Inr x \<longrightarrow> True)
      \<and> (\<forall>e. r = Inl e \<longrightarrow> frame A D {} h h')"
  proof (cases rule: ds_setitem_cases)
    case (align_raises e)
    from frame_mono [where X="{}", OF frame_align [OF align_raises(1)] A D] show ?thesis
      by (simp add: frame_def)
  next
    case (inconsistent v)
    from frame_mono [where X="{}", OF frame_align [OF inconsistent(1)] A D] show ?thesis
      by (simp add: frame_def)
  next
    case (stored v h1)
    from frame_mono [where X="{}", OF frame_align [OF stored(1)] A D] have "frame A D {} h h1" .
    with stored(2,4) show ?thesis by (simp add: frame_def)
  qed
qed

lemma safe_grow:
  "safe A D X (grow_confidence_measure name cmap ds) (\<lambda>q. D \<le> q)"
  unfolding grow_confidence_measure_def
  apply (rule safe_bind [OF safe_ds_getitem])
  apply (rule safe_bind [OF safe_unpack_shape3])
  apply (simp only: split_paired_all case_prod_conv)
  apply (rule safe_bind [OF safe_np_full])
  apply (rule safe_bind [OF safe_setitem_all_but_last], assumption)
  apply (rule safe_bind [OF safe_setitem_last], assumption)
  apply (rule safe_bind [OF safe_coords_getitem])
  apply (rule safe_bind [OF safe_drop_dims])
  apply (rule safe_bind [OF safe_assign_coords])
  apply (rule safe_bind [OF safe_DataArray])
  apply (rule safe_bind_return [OF safe_ds_setitem_fresh], assumption)
  apply assumption
  done

lemma safe_first:
  "safe A D X (first_confidence_measure name cmap ds) (\<lambda>q. D \<le> q)"
  unfolding first_confidence_measure_def
  apply (rule safe_bind [OF safe_assign_coords])
  apply (rule safe_bind [OF safe_newaxis_astype])
  apply (rule safe_bind [OF safe_DataArray])
  apply (rule safe_bind_return [OF safe_ds_setitem_fresh], assumption)
  apply assumption
  done

lemma safe_update_cost_volume:
  "safe A D X (update_cost_volume name cmap cv) (\<lambda>q. D \<le> q)"
  unfolding update_cost_volume_def
  apply (rule safe_bind [OF safe_in_data_vars])
  apply (simp add: safe_grow safe_first)
  done

lemma safe_update_disparity_map:
  "safe A D (set_option disp) (update_disparity_map name cmap disp cv) (\<lambda>d'. True)"
  unfolding update_disparity_map_def
  apply (cases disp)
   apply (simp add: safe_return)
  apply simp
  apply (rule safe_bind [OF safe_in_data_vars])
  apply (simp, intro conjI impI)
   apply (rule safe_bind_return [OF safe_grow], simp)
  apply (rule safe_bind [OF safe_ds_getitem])
  apply (rule safe_bind_return [OF safe_ds_setitem], simp)
  done

lemma safe_allocate:
  "safe A D (set_option disp) (allocate_confidence_map name cmap disp cv) (\<lambda>(d', c'). D \<le> c')"
  unfolding allocate_confidence_map_def
  apply (rule safe_bind [OF safe_update_cost_volume])
  apply (rule safe_bind_return [OF safe_update_disparity_map])
  apply simp
  done

section \<open>Extents, alignment and the growth of a confidence measure\<close>

lemma consistent_iff:
  "consistent ps \<longleftrightarrow> (\<forall>d n m. (d, n) \<in> set ps \<longrightarrow> (d, m) \<in> set ps \<longrightarrow> n = m)"
  unfolding consistent_def list_all_iff by fastforce

lemma in_dim_sizes:
  "(d, n) \<in> set (dim_sizes h s) \<longleftrightarrow>
     (\<exists>name v. (name, v) \<in> set (data_vars s)
        \<and> (d, n) \<in> set (zip (dims v) (shape (arrays h (data v)))))
     \<or> (\<exists>labels. (d, labels) \<in> set (coords s) \<and> n = length labels)"
  unfolding dim_sizes_def by (auto simp: image_iff)

lemma dim_sizes_varI:
  "(name, v) \<in> set (data_vars s) \<Longrightarrow> (d, n) \<in> set (zip (dims v) (shape (arrays h (data v))))
    \<Longrightarrow> (d, n) \<in> set (dim_sizes h s)"
  by (auto simp: in_dim_sizes)

lemma dim_sizes_coordI:
  "(d, labels) \<in> set (coords s) \<Longrightarrow> (d, length labels) \<in> set (dim_sizes h s)"
  by (auto simp: in_dim_sizes)

lemma set_update_subset: "set (AList.update k v xs) \<subseteq> insert (k, v) (set xs)"
  by (induction xs) auto

lemma consistent_extend:
  assumes old: "consistent old"
    and sub: "set new \<subseteq> {x \<in> set old. fst x \<noteq> i} \<union> {(a, R), (b, C), (i, K)}"
    and a: "\<forall>n. (a, n) \<in> set old \<longrightarrow> n = R"
    and b: "\<forall>n. (b, n) \<in> set old \<longrightarrow> n = C"
    and ne: "a \<noteq> i" "b \<noteq> i" "a \<noteq> b"
  shows "consistent new"
  unfolding consistent_iff
proof (intro allI impI)
  fix d n m
  assume "(d, n) \<in> set new" "(d, m) \<in> set new"
  with sub have n: "(d, n) \<in> {x \<in> set old. fst x \<noteq> i} \<union> {(a, R), (b, C), (i, K)}"
    and m: "(d, m) \<in> {x \<in> set old. fst x \<noteq> i} \<union> {(a, R), (b, C), (i, K)}"
    by blast+
  from old have oc: "\<And>d n m. (d, n) \<in> set old \<Longrightarrow> (d, m) \<in> set old \<Longrightarrow> n = m"
    unfolding consistent_iff by blast
  from n m a b ne oc show "n = m"
    by auto
qed


lemma broadcastable_refl: "broadcastable s s"
  by (simp add: broadcastable_def list.rel_refl)

lemma broadcast_item_3:
  "shape a = [R, C, K] \<Longrightarrow> r < R \<Longrightarrow> c < C \<Longrightarrow> k < K
    \<Longrightarrow> broadcast_item a [r, c, k] = item a [r, c, k]"
  by (auto simp: broadcast_item_def)

lemma broadcast_item_2:
  "shape a = [R, C] \<Longrightarrow> r < R \<Longrightarrow> c < C \<Longrightarrow> broadcast_item a [r, c] = item a [r, c]"
  by (auto simp: broadcast_item_def)

lemma valid_data_lt:
  "valid_dataset h s \<Longrightarrow> (n, v) \<in> set (data_vars s) \<Longrightarrow> data v < next_array h"
  by (auto simp: valid_dataset_def list_all_iff)

lemma dim_sizes_derived:
  assumes dv: "set (data_vars s') \<subseteq>
        insert (k, nv) {x \<in> set (data_vars s). i \<notin> set (dims (snd x))}"
    and co: "set (coords s') \<subseteq> insert (i, labs) {x \<in> set (coords s). fst x \<noteq> i}"
    and old: "\<forall>(n, v) \<in> set (data_vars s). data v < A"
    and fr: "\<forall>p<A. arrays h' p = arrays h p"
  shows "set (dim_sizes h' s') \<subseteq>
      {x \<in> set (dim_sizes h s). fst x \<noteq> i}
      \<union> set (zip (dims nv) (shape (arrays h' (data nv)))) \<union> {(i, length labs)}"
proof
  fix x assume x: "x \<in> set (dim_sizes h' s')"
  obtain d n where dn: "x = (d, n)" by (cases x)
  from x dn consider
    (var) name v where "(name, v) \<in> set (data_vars s')"
      "(d, n) \<in> set (zip (dims v) (shape (arrays h' (data v))))"
    | (coord) labels where "(d, labels) \<in> set (coords s')" "n = length labels"
    by (auto simp: in_dim_sizes)
  then show "x \<in> {x \<in> set (dim_sizes h s). fst x \<noteq> i}
      \<union> set (zip (dims nv) (shape (arrays h' (data nv)))) \<union> {(i, length labs)}"
  proof cases
    case var
    from var(1) dv have "(name, v) = (k, nv)
        \<or> ((name, v) \<in> set (data_vars s) \<and> i \<notin> set (dims v))"
      by auto
    then show ?thesis
    proof
      assume "(name, v) = (k, nv)"
      with var(2) dn show ?thesis by simp
    next
      assume a: "(name, v) \<in> set (data_vars s) \<and> i \<notin> set (dims v)"
      with old have "data v < A" by auto
      with fr have "arrays h' (data v) = arrays h (data v)" by simp
      with var(2) a have "(d, n) \<in> set (dim_sizes h s)"
        by (auto simp: in_dim_sizes)
      moreover from var(2) have "d \<in> set (dims v)" by (rule set_zip_leftD)
      with a have "d \<noteq> i" by auto
      ultimately show ?thesis using dn by simp
    qed
  next
    case coord
    from coord(1) co have "(d, labels) = (i, labs)
        \<or> ((d, labels) \<in> set (coords s) \<and> d \<noteq> i)"
      by auto
    then show ?thesis
    proof
      assume "(d, labels) = (i, labs)"
      with coord(2) dn show ?thesis by simp
    next
      assume "(d, labels) \<in> set (coords s) \<and> d \<noteq> i"
      with coord(2) dn show ?thesis by (auto simp: in_dim_sizes)
    qed
  qed
qed


lemma filter_vars_subset:
  "set (filter (\<lambda>(n, v). i \<notin> set (dims v)) xs) \<subseteq> {x \<in> set xs. i \<notin> set (dims (snd x))}"
  by (induction xs) auto

lemma filter_coords_subset:
  "set (filter (\<lambda>(c, l). c \<noteq> i) xs) \<subseteq> {x \<in> set xs. fst x \<noteq> i}"
  by (induction xs) auto

lemma update_filter_vars_subset:
  "set (AList.update k nv (filter (\<lambda>(n, v). i \<notin> set (dims v)) xs))
     \<subseteq> insert (k, nv) {x \<in> set xs. i \<notin> set (dims (snd x))}"
  by (rule order_trans [OF set_update_subset insert_mono [OF filter_vars_subset]])

lemma update_filter_coords_subset:
  "set (AList.update i labs (filter (\<lambda>(c, l). c \<noteq> i) xs))
     \<subseteq> insert (i, labs) {x \<in> set xs. fst x \<noteq> i}"
  by (rule order_trans [OF set_update_subset insert_mono [OF filter_coords_subset]])

lemma consistent_derived:
  assumes cons: "consistent (dim_sizes h s)"
    and dv: "set (data_vars s') \<subseteq>
        insert (k, nv) {x \<in> set (data_vars s). i \<notin> set (dims (snd x))}"
    and co: "set (coords s') \<subseteq> insert (i, labs) {x \<in> set (coords s). fst x \<noteq> i}"
    and old: "\<forall>(n, v) \<in> set (data_vars s). data v < A"
    and fr: "\<forall>p<A. arrays h' p = arrays h p"
    and nv: "dims nv = [a, b, i]" "shape (arrays h' (data nv)) = [R, C, K]"
    and len: "length labs = K"
    and a: "\<forall>n. (a, n) \<in> set (dim_sizes h s) \<longrightarrow> n = R"
    and b: "\<forall>n. (b, n) \<in> set (dim_sizes h s) \<longrightarrow> n = C"
    and ne: "a \<noteq> i" "b \<noteq> i" "a \<noteq> b"
  shows "consistent (dim_sizes h' s')"
proof (rule consistent_extend [OF cons _ a b ne])
  have z: "set (zip (dims nv) (shape (arrays h' (data nv)))) = {(a, R), (b, C), (i, K)}"
    by (simp add: nv)
  show "set (dim_sizes h' s') \<subseteq> {x \<in> set (dim_sizes h s). fst x \<noteq> i} \<union> {(a, R), (b, C), (i, K)}"
  proof
    fix x assume "x \<in> set (dim_sizes h' s')"
    with dim_sizes_derived [OF dv co old fr]
    have "x \<in> {x \<in> set (dim_sizes h s). fst x \<noteq> i}
        \<union> set (zip (dims nv) (shape (arrays h' (data nv)))) \<union> {(i, length labs)}"
      by (rule subsetD)
    then show "x \<in> {x \<in> set (dim_sizes h s). fst x \<noteq> i} \<union> {(a, R), (b, C), (i, K)}"
      unfolding z len by blast
  qed
qed

lemma axis_plan_no_source: "axis_plan target [] d = None"
  by (simp add: axis_plan_def split: option.splits)

lemma align_no_coords: "da_coords da = [] \<Longrightarrow> align target da h = (Inr (da_var da), h)"
  by (simp add: align_def Let_def axis_plan_no_source list_all_iff)

lemma grow_exec:
  assumes valid: "valid_dataset h (datasets h ds)"
    and v: "map_of (data_vars (datasets h ds)) ''confidence_measure'' = Some v"
    and dv: "dims v = [''row'', ''col'', ''indicator'']"
    and sv: "shape (arrays h (data v)) = [R, C, K]"
    and lab: "map_of (coords (datasets h ds)) ''indicator'' = Some labels"
    and m: "cmap < next_array h" "shape (arrays h cmap) = [R, C]"
  obtains a h' where
    "grow_confidence_measure name cmap ds h = (Inr (Suc (next_dataset h)), h')"
    "next_array h' = Suc (next_array h)"
    "next_dataset h' = Suc (Suc (next_dataset h))"
    "arrays h' = (arrays h)(next_array h := a)"
    "\<And>q. q < next_dataset h \<Longrightarrow> datasets h' q = datasets h q"
    "datasets h' (Suc (next_dataset h)) =
       \<lparr>data_vars = AList.update ''confidence_measure''
           \<lparr>dims = [''row'', ''col'', ''indicator''], data = next_array h\<rparr>
           (filter (\<lambda>(n, v). ''indicator'' \<notin> set (dims v)) (data_vars (datasets h ds))),
        coords = AList.update ''indicator'' (labels @ [name])
           (filter (\<lambda>(c, l). c \<noteq> ''indicator'') (coords (datasets h ds)))\<rparr>"
    "shape a = [R, C, Suc K]"
    "\<And>r c k. r < R \<Longrightarrow> c < C \<Longrightarrow> k < K
       \<Longrightarrow> item a [r, c, k] = item (arrays h (data v)) [r, c, k]"
    "\<And>r c. r < R \<Longrightarrow> c < C \<Longrightarrow> item a [r, c, K] = item (arrays h cmap) [r, c]"
proof -
  let ?s = "datasets h ds"
  let ?p = "next_array h"
  let ?q1 = "next_dataset h"
  let ?q2 = "Suc (next_dataset h)"
  let ?old = "arrays h (data v)"
  let ?m = "arrays h cmap"
  let ?nv = "\<lparr>dims = [''row'', ''col'', ''indicator''], data = ?p\<rparr>"
  from v have vin: "(''confidence_measure'', v) \<in> set (data_vars ?s)"
    by (rule map_of_SomeD)
  from lab have labin: "(''indicator'', labels) \<in> set (coords ?s)"
    by (rule map_of_SomeD)
  from valid vin have vlt: "data v < ?p" by (rule valid_data_lt)
  from valid have cons: "consistent (dim_sizes h ?s)"
    by (simp add: valid_dataset_def)
  have pairs: "(''row'', R) \<in> set (dim_sizes h ?s)"
    "(''col'', C) \<in> set (dim_sizes h ?s)" "(''indicator'', K) \<in> set (dim_sizes h ?s)"
    by (rule dim_sizes_varI [OF vin], simp add: dv sv)+
  from labin have "(''indicator'', length labels) \<in> set (dim_sizes h ?s)"
    by (rule dim_sizes_coordI)
  with cons pairs(3) have len: "length labels = K"
    unfolding consistent_iff by blast
  from cons pairs have rowR: "\<forall>n. (''row'', n) \<in> set (dim_sizes h ?s) \<longrightarrow> n = R"
    and colC: "\<forall>n. (''col'', n) \<in> set (dim_sizes h ?s) \<longrightarrow> n = C"
    unfolding consistent_iff by blast+
  define a0 where "a0 = \<lparr>shape = [R, C, K + 1], item = (\<lambda>idx. np_nan)\<rparr>"
  define h1 where "h1 = h\<lparr>arrays := (arrays h)(?p := a0), next_array := Suc ?p\<rparr>"
  define a1 where "a1 = (arrays h1 ?p)\<lparr>item :=
      (\<lambda>idx. case idx of
          [r, c, k] \<Rightarrow> if k < Suc K - 1 then broadcast_item (arrays h1 (data v)) [r, c, k]
                       else item (arrays h1 ?p) idx
        | _ \<Rightarrow> item (arrays h1 ?p) idx)\<rparr>"
  define h2 where "h2 = h1\<lparr>arrays := (arrays h1)(?p := a1)\<rparr>"
  define a where "a = (arrays h2 ?p)\<lparr>item :=
      (\<lambda>idx. case idx of
          [r, c, k] \<Rightarrow> if k = Suc K - 1 then broadcast_item (arrays h2 cmap) [r, c]
                       else item (arrays h2 ?p) idx
        | _ \<Rightarrow> item (arrays h2 ?p) idx)\<rparr>"
  define h3 where "h3 = h2\<lparr>arrays := (arrays h2)(?p := a)\<rparr>"
  have old1: "arrays h1 (data v) = ?old" and m2: "arrays h2 cmap = ?m"
    using vlt m(1) by (simp_all add: h2_def h1_def)
  have sh1: "shape (arrays h1 ?p) = [R, C, Suc K]"
    by (simp add: h1_def a0_def)
  have sh2: "shape (arrays h2 ?p) = [R, C, Suc K]"
    by (simp add: h2_def a1_def sh1)
  have sha: "shape a = [R, C, Suc K]"
    by (simp add: a_def sh2)
  have h3_arrays: "arrays h3 = (arrays h)(?p := a)"
    by (simp add: h3_def h2_def h1_def)
  have h3_rest: "next_array h3 = Suc ?p" "datasets h3 = datasets h"
    "next_dataset h3 = next_dataset h"
    by (simp_all add: h3_def h2_def h1_def)
  define s1 where "s1 =
    \<lparr>data_vars = filter (\<lambda>(n, v). ''indicator'' \<notin> set (dims v)) (data_vars ?s),
     coords = filter (\<lambda>(c, l). c \<noteq> ''indicator'') (coords ?s)\<rparr>"
  define s2 where "s2 = s1\<lparr>coords := AList.update ''indicator'' (labels @ [name]) (coords s1)\<rparr>"
  define s3 where "s3 = s2\<lparr>data_vars := AList.update ''confidence_measure'' ?nv (data_vars s2)\<rparr>"
  define h4 where "h4 = h3\<lparr>datasets := (datasets h3)(?q1 := s1), next_dataset := ?q2\<rparr>"
  define h5 where "h5 = h4\<lparr>datasets := (datasets h4)(?q2 := s2), next_dataset := Suc ?q2\<rparr>"
  define h6 where "h6 = h5\<lparr>datasets := (datasets h5)(?q2 := s3)\<rparr>"
  have arr3: "\<forall>p<?p. arrays h3 p = arrays h p"
    by (simp add: h3_arrays)
  have olddata: "\<forall>(n, v) \<in> set (data_vars ?s). data v < ?p"
    using valid by (auto simp: valid_dataset_def list_all_iff)
  have shp: "shape (arrays h3 ?p) = [R, C, Suc K]"
    by (simp add: h3_arrays sha)
  have nvshape: "dims ?nv = [''row'', ''col'', ''indicator'']"
    "shape (arrays h3 (data ?nv)) = [R, C, Suc K]"
    using shp by simp_all
  have len': "length (labels @ [name]) = Suc K"
    using len by simp
  have dv2: "set (data_vars s2) \<subseteq> insert (''confidence_measure'', ?nv)
      {x \<in> set (data_vars ?s). ''indicator'' \<notin> set (dims (snd x))}"
    unfolding s2_def s1_def using filter_vars_subset [of "''indicator''" "data_vars ?s"]
    by (simp add: subset_insertI2)
  have co2: "set (coords s2) \<subseteq> insert (''indicator'', labels @ [name])
      {x \<in> set (coords ?s). fst x \<noteq> ''indicator''}"
    unfolding s2_def s1_def using update_filter_coords_subset [of "''indicator''" "labels @ [name]" "coords ?s"]
    by simp
  have dv3: "set (data_vars s3) \<subseteq> insert (''confidence_measure'', ?nv)
      {x \<in> set (data_vars ?s). ''indicator'' \<notin> set (dims (snd x))}"
    unfolding s3_def s2_def s1_def
    using update_filter_vars_subset [of "''confidence_measure''" ?nv "''indicator''" "data_vars ?s"]
    by simp
  have co3: "set (coords s3) \<subseteq> insert (''indicator'', labels @ [name])
      {x \<in> set (coords ?s). fst x \<noteq> ''indicator''}"
    unfolding s3_def using co2 by simp
  have cons2: "consistent (dim_sizes h3 s2)"
    by (rule consistent_derived [OF cons dv2 co2 olddata arr3 nvshape len' rowR colC]) simp_all
  have cons3: "consistent (dim_sizes h3 s3)"
    by (rule consistent_derived [OF cons dv3 co3 olddata arr3 nvshape len' rowR colC]) simp_all
  have ds_indep: "\<And>hh hh' s. arrays hh' = arrays hh \<Longrightarrow> dim_sizes hh' s = dim_sizes hh s"
    by (simp add: dim_sizes_def)
  have c4: "consistent (dim_sizes h4 s2)"
    using cons2 ds_indep [of h4 h3 s2] by (simp add: h4_def)
  have c5: "consistent (dim_sizes h5 s3)"
    using cons3 ds_indep [of h5 h3 s3] by (simp add: h5_def h4_def)
  have indin: "''indicator'' \<in> fst ` set (dim_sizes h3 ?s)"
    using dim_sizes_coordI [OF labin, of h3] by force
  have step1: "ds_getitem ds ''confidence_measure'' h
      = (Inr \<lparr>da_var = v, da_coords = filter (\<lambda>(c, labels). c \<in> set (dims v)) (coords ?s)\<rparr>, h)"
    using v by (simp add: ds_getitem_def)
  have step2: "unpack_shape3 (data v) h = (Inr (R, C, K), h)"
    using sv by (simp add: unpack_shape3_def)
  have step3: "np_full [R, C, Suc K] np_nan h = (Inr ?p, h1)"
    by (simp add: np_full_def new_array_def h1_def a0_def)
  have step4: "setitem_all_but_last ?p (data v) h1 = (Inr (), h2)"
  proof -
    have bc: "broadcastable (shape (arrays h1 (data v))) [R, C, Suc K - 1]"
      by (simp add: old1 sv broadcastable_refl)
    show ?thesis
      unfolding setitem_all_but_last_def Let_def h2_def a1_def
      by (simp only: sh1 list.case bc if_True)
  qed
  have step5: "setitem_last ?p cmap h2 = (Inr (), h3)"
  proof -
    have bc: "broadcastable (shape (arrays h2 cmap)) [R, C]"
      by (simp add: m2 m(2) broadcastable_refl)
    have nz: "Suc K \<noteq> 0" by simp
    show ?thesis
      unfolding setitem_last_def Let_def h3_def a_def
      by (simp only: sh2 list.case bc if_True nz if_False)
  qed
  have step6: "coords_getitem ds ''indicator'' h3 = (Inr labels, h3)"
    using lab by (simp add: coords_getitem_def h3_rest)
  have step7: "drop_dims ds ''indicator'' h3 = (Inr ?q1, h4)"
    using indin by (simp add: drop_dims_def Let_def new_dataset_def h4_def s1_def h3_rest)
  have step8: "assign_coords ?q1 ''indicator'' (np_append labels name) h4 = (Inr ?q2, h5)"
    using c4 by (simp add: assign_coords_def Let_def np_append_def new_dataset_def h5_def h4_def s2_def)
  have step9: "DataArray ?p [''row'', ''col'', ''indicator''] h5
      = (Inr \<lparr>da_var = ?nv, da_coords = []\<rparr>, h5)"
    using shp by (simp add: DataArray_def h5_def h4_def)
  have step10: "ds_setitem ?q2 ''confidence_measure'' \<lparr>da_var = ?nv, da_coords = []\<rparr> h5
      = (Inr (), h6)"
    using c5
    by (simp add: ds_setitem_def Let_def align_no_coords py_bind_def h6_def h5_def s3_def)
  have run: "grow_confidence_measure name cmap ds h = (Inr ?q2, h6)"
    unfolding grow_confidence_measure_def
    by (simp add: py_bind_def step1 step2 step3 step4 step5 step6 step7 step8 step9 step10
        py_return_def)
  show thesis
  proof (rule that [of h6 a])
    show "grow_confidence_measure name cmap ds h = (Inr ?q2, h6)" by (rule run)
    show "next_array h6 = Suc ?p" by (simp add: h6_def h5_def h4_def h3_rest)
    show "next_dataset h6 = Suc ?q2" by (simp add: h6_def h5_def h4_def)
    show "arrays h6 = (arrays h)(?p := a)" by (simp add: h6_def h5_def h4_def h3_arrays)
    show "datasets h6 q = datasets h q" if "q < ?q1" for q
      using that by (simp add: h6_def h5_def h4_def h3_rest)
    show "datasets h6 ?q2 =
       \<lparr>data_vars = AList.update ''confidence_measure'' ?nv
           (filter (\<lambda>(n, v). ''indicator'' \<notin> set (dims v)) (data_vars ?s)),
        coords = AList.update ''indicator'' (labels @ [name])
           (filter (\<lambda>(c, l). c \<noteq> ''indicator'') (coords ?s))\<rparr>"
      by (simp add: h6_def s3_def s2_def s1_def)
    show "shape a = [R, C, Suc K]" by (rule sha)
    show "item a [r, c, k] = item ?old [r, c, k]" if "r < R" "c < C" "k < K" for r c k
      using that broadcast_item_3 [OF sv that]
      by (simp add: a_def h2_def a1_def old1)
    show "item a [r, c, K] = item ?m [r, c]" if "r < R" "c < C" for r c
      using that broadcast_item_2 [OF m(2) that] by (simp add: a_def m2)
  qed
qed


lemma py_bind_InrE:
  assumes "py_bind m f h = (Inr y, h')"
  obtains x h1 where "m h = (Inr x, h1)" "f x h1 = (Inr y, h')"
  using assms by (auto simp: py_bind_def split: prod.splits sum.splits)

lemma ds_getitem_InrD:
  "ds_getitem ds n h = (Inr da, h1) \<Longrightarrow>
     h1 = h \<and> (\<exists>v. map_of (data_vars (datasets h ds)) n = Some v
        \<and> da = \<lparr>da_var = v,
                da_coords = filter (\<lambda>(c, labels). c \<in> set (dims v)) (coords (datasets h ds))\<rparr>)"
  by (auto simp: ds_getitem_def Let_def split: option.splits)

lemma unpack_shape3_InrD:
  "unpack_shape3 p h = (Inr x, h1) \<Longrightarrow>
     h1 = h \<and> (\<exists>R C K. x = (R, C, K) \<and> shape (arrays h p) = [R, C, K])"
  by (auto simp: unpack_shape3_def split: list.splits)

lemma coords_getitem_InrD:
  "coords_getitem ds n h = (Inr labels, h1) \<Longrightarrow>
     h1 = h \<and> map_of (coords (datasets h ds)) n = Some labels"
  by (auto simp: coords_getitem_def split: option.splits)

lemma setitem_all_but_last_InrD:
  "setitem_all_but_last dst src h = (Inr u, h1) \<Longrightarrow>
     \<exists>a'. h1 = h\<lparr>arrays := (arrays h)(dst := a')\<rparr> \<and> shape a' = shape (arrays h dst)"
  by (auto simp: setitem_all_but_last_def Let_def split: list.splits if_splits)

lemma setitem_last_InrD:
  "setitem_last dst src h = (Inr u, h1) \<Longrightarrow>
     \<exists>a'. h1 = h\<lparr>arrays := (arrays h)(dst := a')\<rparr> \<and> shape a' = shape (arrays h dst)"
  by (auto simp: setitem_last_def Let_def split: list.splits if_splits)

lemma drop_dims_InrD:
  "drop_dims ds d h = (Inr q, h1) \<Longrightarrow>
     q = next_dataset h
     \<and> h1 = h\<lparr>datasets := (datasets h)(next_dataset h :=
           \<lparr>data_vars = filter (\<lambda>(n, v). d \<notin> set (dims v)) (data_vars (datasets h ds)),
            coords = filter (\<lambda>(c, labels). c \<noteq> d) (coords (datasets h ds))\<rparr>),
          next_dataset := Suc (next_dataset h)\<rparr>"
  by (auto simp: drop_dims_def Let_def new_dataset_def split: if_splits)

lemma assign_coords_InrD:
  "assign_coords ds d labels h = (Inr q, h1) \<Longrightarrow>
     q = next_dataset h
     \<and> h1 = h\<lparr>datasets := (datasets h)(next_dataset h :=
           (datasets h ds)\<lparr>coords := AList.update d labels (coords (datasets h ds))\<rparr>),
          next_dataset := Suc (next_dataset h)\<rparr>"
  by (auto simp: assign_coords_def Let_def new_dataset_def split: if_splits)

lemma DataArray_InrD:
  "DataArray p names h = (Inr da, h1) \<Longrightarrow>
     h1 = h \<and> da = \<lparr>da_var = \<lparr>dims = names, data = p\<rparr>, da_coords = []\<rparr>
     \<and> length (shape (arrays h p)) = length names"
  by (auto simp: DataArray_def split: if_splits)

lemma ds_setitem_no_coords_InrD:
  assumes "ds_setitem ds n da h = (Inr u, h1)" and "da_coords da = []"
  shows "h1 = h\<lparr>datasets := (datasets h)(ds :=
           (datasets h ds)\<lparr>data_vars := AList.update n (da_var da) (data_vars (datasets h ds))\<rparr>)\<rparr>
     \<and> consistent (dim_sizes h
           ((datasets h ds)\<lparr>data_vars := AList.update n (da_var da) (data_vars (datasets h ds))\<rparr>))"
  using assms
  by (auto simp: ds_setitem_def Let_def py_bind_def align_no_coords split: if_splits)

lemma np_full_eq:
  "np_full shp x h = (Inr (next_array h),
     h\<lparr>arrays := (arrays h)(next_array h := \<lparr>shape = shp, item = (\<lambda>idx. x)\<rparr>),
       next_array := Suc (next_array h)\<rparr>)"
  by (simp add: np_full_def new_array_def)


lemma py_bind_Inr_iff:
  "py_bind m f h = (Inr y, h') \<longleftrightarrow> (\<exists>x h1. m h = (Inr x, h1) \<and> f x h1 = (Inr y, h'))"
  by (auto simp: py_bind_def split: prod.splits sum.splits)

lemma py_return_Inr_iff: "py_return x h = (Inr y, h') \<longleftrightarrow> y = x \<and> h' = h"
  by (auto simp: py_return_def)

lemma ds_getitem_Inr_iff:
  "ds_getitem ds n h = (Inr da, h1) \<longleftrightarrow>
     h1 = h \<and> (\<exists>v. map_of (data_vars (datasets h ds)) n = Some v
        \<and> da = \<lparr>da_var = v,
                da_coords = filter (\<lambda>(c, labels). c \<in> set (dims v)) (coords (datasets h ds))\<rparr>)"
  by (auto simp: ds_getitem_def Let_def split: option.splits)

lemma unpack_shape3_Inr_iff:
  "unpack_shape3 p h = (Inr x, h1) \<longleftrightarrow>
     h1 = h \<and> (\<exists>R C K. x = (R, C, K) \<and> shape (arrays h p) = [R, C, K])"
  by (auto simp: unpack_shape3_def split: list.splits)

lemma coords_getitem_Inr_iff:
  "coords_getitem ds n h = (Inr labels, h1) \<longleftrightarrow>
     h1 = h \<and> map_of (coords (datasets h ds)) n = Some labels"
  by (auto simp: coords_getitem_def split: option.splits)

lemma np_full_Inr_iff:
  "np_full shp x h = (Inr p, h1) \<longleftrightarrow>
     p = next_array h
     \<and> h1 = h\<lparr>arrays := (arrays h)(next_array h := \<lparr>shape = shp, item = (\<lambda>idx. x)\<rparr>),
              next_array := Suc (next_array h)\<rparr>"
  by (auto simp: np_full_eq)

lemma drop_dims_Inr_iff:
  "drop_dims ds d h = (Inr q, h1) \<longleftrightarrow>
     d \<in> fst ` set (dim_sizes h (datasets h ds)) \<and> q = next_dataset h
     \<and> h1 = h\<lparr>datasets := (datasets h)(next_dataset h :=
           \<lparr>data_vars = filter (\<lambda>(n, v). d \<notin> set (dims v)) (data_vars (datasets h ds)),
            coords = filter (\<lambda>(c, labels). c \<noteq> d) (coords (datasets h ds))\<rparr>),
          next_dataset := Suc (next_dataset h)\<rparr>"
  by (auto simp: drop_dims_def Let_def new_dataset_def split: if_splits)

lemma assign_coords_Inr_iff:
  "assign_coords ds d labels h = (Inr q, h1) \<longleftrightarrow>
     consistent (dim_sizes h
        ((datasets h ds)\<lparr>coords := AList.update d labels (coords (datasets h ds))\<rparr>))
     \<and> q = next_dataset h
     \<and> h1 = h\<lparr>datasets := (datasets h)(next_dataset h :=
           (datasets h ds)\<lparr>coords := AList.update d labels (coords (datasets h ds))\<rparr>),
          next_dataset := Suc (next_dataset h)\<rparr>"
  by (auto simp: assign_coords_def Let_def new_dataset_def split: if_splits)

lemma DataArray_Inr_iff:
  "DataArray p names h = (Inr da, h1) \<longleftrightarrow>
     h1 = h \<and> da = \<lparr>da_var = \<lparr>dims = names, data = p\<rparr>, da_coords = []\<rparr>
     \<and> length (shape (arrays h p)) = length names"
  by (auto simp: DataArray_def split: if_splits)

lemma ds_setitem_no_coords_Inr_iff:
  "ds_setitem ds n \<lparr>da_var = nv, da_coords = []\<rparr> h = (Inr u, h1) \<longleftrightarrow>
     consistent (dim_sizes h
        ((datasets h ds)\<lparr>data_vars := AList.update n nv (data_vars (datasets h ds))\<rparr>))
     \<and> h1 = h\<lparr>datasets := (datasets h)(ds :=
           (datasets h ds)\<lparr>data_vars := AList.update n nv (data_vars (datasets h ds))\<rparr>)\<rparr>"
  by (auto simp: ds_setitem_def Let_def py_bind_def align_no_coords split: if_splits)

lemma dim_sizes_arrays_cong: "arrays h' = arrays h \<Longrightarrow> dim_sizes h' s = dim_sizes h s"
  by (simp add: dim_sizes_def)

lemma dim_sizes_heap_simps:
  "dim_sizes (h\<lparr>datasets := d\<rparr>) s = dim_sizes h s"
  "dim_sizes (h\<lparr>next_dataset := n\<rparr>) s = dim_sizes h s"
  "dim_sizes (h\<lparr>next_array := n\<rparr>) s = dim_sizes h s"
  by (simp_all add: dim_sizes_def)

lemma grow_result:
  assumes run: "grow_confidence_measure name cmap ds h = (Inr ds', h')"
  shows "\<exists>v labels R C K a.
      map_of (data_vars (datasets h ds)) ''confidence_measure'' = Some v
      \<and> shape (arrays h (data v)) = [R, C, K]
      \<and> map_of (coords (datasets h ds)) ''indicator'' = Some labels
      \<and> ds' = Suc (next_dataset h)
      \<and> next_dataset h' = Suc (Suc (next_dataset h))
      \<and> next_array h' = Suc (next_array h)
      \<and> arrays h' = (arrays h)(next_array h := a)
      \<and> shape a = [R, C, Suc K]
      \<and> (\<forall>q<next_dataset h. datasets h' q = datasets h q)
      \<and> datasets h' ds' =
          \<lparr>data_vars = AList.update ''confidence_measure''
             \<lparr>dims = [''row'', ''col'', ''indicator''], data = next_array h\<rparr>
             (filter (\<lambda>(n, v). ''indicator'' \<notin> set (dims v)) (data_vars (datasets h ds))),
           coords = AList.update ''indicator'' (labels @ [name])
             (filter (\<lambda>(c, l). c \<noteq> ''indicator'') (coords (datasets h ds)))\<rparr>
      \<and> consistent (dim_sizes h' (datasets h' ds'))"
  using run unfolding grow_confidence_measure_def
  apply (simp add: py_bind_Inr_iff py_return_Inr_iff ds_getitem_Inr_iff unpack_shape3_Inr_iff
      coords_getitem_Inr_iff np_full_Inr_iff drop_dims_Inr_iff assign_coords_Inr_iff
      DataArray_Inr_iff ds_setitem_no_coords_Inr_iff)
  apply (clarsimp dest!: setitem_all_but_last_InrD setitem_last_InrD
      simp: np_append_def dim_sizes_heap_simps)
  apply (rule exI, rule conjI, rule refl, assumption)
  done

end
